theory Spec2Isabelle
  imports Complex_Main
begin

section \<open>Hurricane flow field: embedding of hurricane\_flow\_field.py\<close>

text \<open>
  Python integers are \<open>int\<close>. The attributes and arguments the signatures annotate as
  float (the centre, max\_wind\_speed, eye\_radius, the arrow scale) are floats, and floats are
  modelled by the reals: every float operation of the source is the exact operation, so
  rounding, infinities and NaN are outside the model. The ways the source can raise are
  values: a float division by zero raises ZeroDivisionError, \<open>math.sqrt\<close> of a negative
  number and \<open>range\<close> with step 0 raise ValueError, and an integer too large for a float
  raises OverflowError where it meets float arithmetic. Memory and time are unbounded.
\<close>

subsection \<open>Errors as values\<close>

datatype error = ZeroDivisionError | ValueError | OverflowError

definition bind_res :: "error + 'a \<Rightarrow> ('a \<Rightarrow> error + 'b) \<Rightarrow> error + 'b" where
  "bind_res m f = (case m of Inl e \<Rightarrow> Inl e | Inr v \<Rightarrow> f v)"

text \<open>Float division \<open>a / b\<close>.\<close>

definition py_div :: "real \<Rightarrow> real \<Rightarrow> error + real" where
  "py_div a b = (if b = 0 then Inl ZeroDivisionError else Inr (a / b))"

text \<open>\<open>math.sqrt(a)\<close>.\<close>

definition py_sqrt :: "real \<Rightarrow> error + real" where
  "py_sqrt a = (if a < 0 then Inl ValueError else Inr (sqrt a))"

text \<open>
  The conversion of an integer that an operation between an int and a float performs
  (\<open>x - self.center_x\<close> with \<open>x\<close> an int). The largest float is \<open>2^1024 - 2^971\<close>;
  conversion rounds to nearest, ties to even, so an integer converts when its magnitude is
  below \<open>2^1024 - 2^970\<close> and raises OverflowError from there on.
\<close>

definition float_limit :: int where
  "float_limit = 2 ^ 1024 - 2 ^ 970"

definition py_float :: "int \<Rightarrow> error + real" where
  "py_float i = (if \<bar>i\<bar> < float_limit then Inr (real_of_int i) else Inl OverflowError)"

text \<open>
  \<open>range(start, stop, step)\<close> on integers, as a list: step 0 raises ValueError, otherwise
  the elements are \<open>start + i * step\<close> for \<open>i\<close> below the length CPython computes.
\<close>

definition py_range :: "int \<Rightarrow> int \<Rightarrow> int \<Rightarrow> error + int list" where
  "py_range start stop step =
     (if step = 0 then Inl ValueError
      else if step > 0
        then Inr (map (\<lambda>i. start + int i * step) [0..<nat ((stop - start + step - 1) div step)])
        else Inr (map (\<lambda>i. start + int i * step) [0..<nat ((start - stop - step - 1) div (- step))]))"

subsection \<open>The object\<close>

record HurricaneFlowField =
  width :: int
  height :: int
  center_x :: real
  center_y :: real
  max_wind_speed :: real
  eye_radius :: real

text \<open>
  \<open>__init__\<close>: a centre coordinate that is \<open>None\<close> defaults to the middle of the canvas
  (true division of an integer by 2).
\<close>

definition init :: "int \<Rightarrow> int \<Rightarrow> real option \<Rightarrow> real option \<Rightarrow> real \<Rightarrow> real \<Rightarrow> HurricaneFlowField" where
  "init w h cx cy mws er =
     \<lparr> width = w, height = h,
       center_x = (case cx of Some c \<Rightarrow> c | None \<Rightarrow> real_of_int w / 2),
       center_y = (case cy of Some c \<Rightarrow> c | None \<Rightarrow> real_of_int h / 2),
       max_wind_speed = mws, eye_radius = er \<rparr>"

text \<open>The object built by \<open>main()\<close>.\<close>

definition main_field :: HurricaneFlowField where
  "main_field = init 800 600 (Some 400) (Some 300) 60 40"

subsection \<open>velocity\_field\<close>

text \<open>The two branch formulas for the angular velocity (lines 64 and 67).\<close>

definition omega_solid_body :: "HurricaneFlowField \<Rightarrow> error + real" where
  "omega_solid_body self = py_div (max_wind_speed self) (eye_radius self)"

definition omega_potential_flow :: "HurricaneFlowField \<Rightarrow> real \<Rightarrow> error + real" where
  "omega_potential_flow self r = py_div (max_wind_speed self * eye_radius self) (r * r)"

text \<open>
  Lines 69 to 79: the Cartesian components for a given angular velocity, plus the inward
  radial term.
\<close>

definition cartesian_velocity ::
  "HurricaneFlowField \<Rightarrow> real \<Rightarrow> real \<Rightarrow> real \<Rightarrow> real \<Rightarrow> error + (real \<times> real)" where
  "cartesian_velocity self dx dy r omega =
     bind_res (py_div (- omega * dy) r) (\<lambda>vx.
     bind_res (py_div (omega * dx) r) (\<lambda>vy.
     bind_res (py_div (eye_radius self) (max r (eye_radius self))) (\<lambda>q.
     let radial_factor = 0.1 * (1.0 - q) in
     bind_res (py_div (- dx) r) (\<lambda>nx.
     bind_res (py_div (- dy) r) (\<lambda>ny.
     Inr (vx + radial_factor * nx * max_wind_speed self * 0.1,
          vy + radial_factor * ny * max_wind_speed self * 0.1))))))"

definition velocity_field :: "HurricaneFlowField \<Rightarrow> real \<Rightarrow> real \<Rightarrow> error + (real \<times> real)" where
  "velocity_field self x y =
     (let dx = x - center_x self;
          dy = y - center_y self
      in bind_res (py_sqrt (dx * dx + dy * dy)) (\<lambda>r.
         if r < 0.1 then Inr (0.0, 0.0)
         else bind_res (if r < eye_radius self then omega_solid_body self
                        else omega_potential_flow self r)
                (\<lambda>omega. cartesian_velocity self dx dy r omega)))"

subsection \<open>generate\_grid\<close>

text \<open>
  The outer loop over \<open>x\<close>; the inner \<open>range\<close> is evaluated once per outer iteration and its
  points are appended in order.
\<close>

fun grid_loop :: "HurricaneFlowField \<Rightarrow> int \<Rightarrow> int list \<Rightarrow> (int \<times> int) list \<Rightarrow> error + (int \<times> int) list" where
  "grid_loop self spacing [] points = Inr points"
| "grid_loop self spacing (x # xs) points =
     bind_res (py_range spacing (height self) spacing) (\<lambda>ys.
       grid_loop self spacing xs (points @ map (\<lambda>y. (x, y)) ys))"

definition generate_grid :: "HurricaneFlowField \<Rightarrow> int \<Rightarrow> error + (int \<times> int) list" where
  "generate_grid self spacing =
     bind_res (py_range spacing (width self) spacing) (\<lambda>xs. grid_loop self spacing xs [])"

subsection \<open>arrow\_path\<close>

text \<open>
  The path string is determined by the start point and the four computed points, each printed
  with two decimals; the model keeps the numbers. The empty string is \<open>None\<close>.
\<close>

record path =
  start_x :: real
  start_y :: real
  tip_x :: real
  tip_y :: real
  left_x :: real
  left_y :: real
  right_x :: real
  right_y :: real

definition arrow_path ::
  "HurricaneFlowField \<Rightarrow> real \<Rightarrow> real \<Rightarrow> real \<Rightarrow> real \<Rightarrow> real \<Rightarrow> real \<Rightarrow> error + path option" where
  "arrow_path self x y vx vy scale arrow_length =
     bind_res (py_sqrt (vx * vx + vy * vy)) (\<lambda>speed.
     if speed < 0.01 then Inr None
     else
       bind_res (py_div speed (max_wind_speed self)) (\<lambda>ratio.
       let length = arrow_length * scale * min ratio 1.0 in
       bind_res (py_div vx speed) (\<lambda>vx_norm.
       bind_res (py_div vy speed) (\<lambda>vy_norm.
       let tipx = x + vx_norm * length;
           tipy = y + vy_norm * length;
           head_length = length * 0.3;
           head_width = length * 0.15;
           perp_x = - vy_norm;
           perp_y = vx_norm;
           head_base_x = tipx - vx_norm * head_length;
           head_base_y = tipy - vy_norm * head_length
       in Inr (Some \<lparr> start_x = x, start_y = y, tip_x = tipx, tip_y = tipy,
                       left_x = head_base_x + perp_x * head_width,
                       left_y = head_base_y + perp_y * head_width,
                       right_x = head_base_x - perp_x * head_width,
                       right_y = head_base_y - perp_y * head_width \<rparr>)))))"

subsection \<open>generate\_svg\<close>

text \<open>
  The document: the values substituted into the fixed markup, and the path elements in the
  order they are appended.
\<close>

record svg =
  svg_width :: int
  svg_height :: int
  style_stroke :: string
  style_stroke_width :: real
  rect_width :: int
  rect_height :: int
  circle_cx :: real
  circle_cy :: real
  circle_r :: real
  paths :: "path list"

text \<open>
  The loop of lines 201 to 205: a path element is appended only when the path string is
  not empty; \<open>arrow_length\<close> keeps its default 20.0. The grid's \<open>x\<close> and \<open>y\<close> are
  integers: they become floats at the first two statements of velocity\_field
  (\<open>x - self.center_x\<close>, then \<open>y - self.center_y\<close>), which is where an integer beyond the
  float range raises OverflowError.
\<close>

fun arrows_loop :: "HurricaneFlowField \<Rightarrow> real \<Rightarrow> (int \<times> int) list \<Rightarrow> path list \<Rightarrow> error + path list" where
  "arrows_loop self arrow_scale [] acc = Inr acc"
| "arrows_loop self arrow_scale ((x, y) # ps) acc =
     bind_res (py_float x) (\<lambda>fx.
     bind_res (py_float y) (\<lambda>fy.
     bind_res (velocity_field self fx fy) (\<lambda>(vx, vy).
     bind_res (arrow_path self fx fy vx vy arrow_scale 20.0) (\<lambda>a.
       arrows_loop self arrow_scale ps (case a of None \<Rightarrow> acc | Some p \<Rightarrow> acc @ [p])))))"

definition generate_svg :: "HurricaneFlowField \<Rightarrow> int \<Rightarrow> real \<Rightarrow> real \<Rightarrow> string \<Rightarrow> error + svg" where
  "generate_svg self spacing arrow_scale stroke_width stroke_color =
     bind_res (generate_grid self spacing) (\<lambda>grid_points.
     bind_res (arrows_loop self arrow_scale grid_points []) (\<lambda>ps.
       Inr \<lparr> svg_width = width self, svg_height = height self,
             style_stroke = stroke_color, style_stroke_width = stroke_width,
             rect_width = width self, rect_height = height self,
             circle_cx = center_x self, circle_cy = center_y self,
             circle_r = eye_radius self, paths = ps \<rparr>))"

subsection \<open>Quantities the properties speak about\<close>

text \<open>The distance \<open>r\<close> of lines 53 to 55, and the magnitude of a velocity vector.\<close>

definition radius :: "HurricaneFlowField \<Rightarrow> real \<Rightarrow> real \<Rightarrow> real" where
  "radius self x y =
     sqrt ((x - center_x self) * (x - center_x self) + (y - center_y self) * (y - center_y self))"

definition speed :: "real \<times> real \<Rightarrow> real" where
  "speed v = sqrt (fst v * fst v + snd v * snd v)"

text \<open>
  The angular velocity and the coefficient of the inward radial term as functions of the
  distance: the value the branch of lines 62 to 67 selects, and
  \<open>radial_factor * max_wind_speed * 0.1\<close> of lines 75 to 77. The speed profile is the
  magnitude of the velocity they produce at distance \<open>r\<close>.
\<close>

definition omega_at :: "HurricaneFlowField \<Rightarrow> real \<Rightarrow> real" where
  "omega_at self r =
     (if r < eye_radius self then max_wind_speed self / eye_radius self
      else max_wind_speed self * eye_radius self / (r * r))"

definition radial_at :: "HurricaneFlowField \<Rightarrow> real \<Rightarrow> real" where
  "radial_at self r =
     0.1 * (1.0 - eye_radius self / max r (eye_radius self)) * max_wind_speed self * 0.1"

definition speed_profile :: "HurricaneFlowField \<Rightarrow> real \<Rightarrow> real" where
  "speed_profile self r =
     sqrt (omega_at self r * omega_at self r + radial_at self r * radial_at self r)"

text \<open>Rotation of a vector by the angle \<open>t\<close>, and of a point about the configured centre.\<close>

definition rotate :: "real \<Rightarrow> real \<times> real \<Rightarrow> real \<times> real" where
  "rotate t v = (cos t * fst v - sin t * snd v, sin t * fst v + cos t * snd v)"

definition rotate_about_center :: "HurricaneFlowField \<Rightarrow> real \<Rightarrow> real \<times> real \<Rightarrow> real \<times> real" where
  "rotate_about_center self t p =
     (center_x self + fst (rotate t (fst p - center_x self, snd p - center_y self)),
      center_y self + snd (rotate t (fst p - center_x self, snd p - center_y self)))"

text \<open>The value of \<open>range(spacing, stop, spacing)\<close> when \<open>spacing\<close> is positive.\<close>

definition multiples_below :: "int \<Rightarrow> int \<Rightarrow> int list" where
  "multiples_below spacing stop =
     map (\<lambda>i. spacing + int i * spacing) [0..<nat ((stop - 1) div spacing)]"

text \<open>The length of an arrow's shaft: the distance from its start point to its tip.\<close>

definition shaft_length :: "path \<Rightarrow> real" where
  "shaft_length p =
     sqrt ((tip_x p - start_x p) * (tip_x p - start_x p)
         + (tip_y p - start_y p) * (tip_y p - start_y p))"

text \<open>The speed of the velocity sample taken at a grid point.\<close>

definition sample_speed :: "HurricaneFlowField \<Rightarrow> int \<times> int \<Rightarrow> real" where
  "sample_speed self p =
     (case velocity_field self (real_of_int (fst p)) (real_of_int (snd p)) of
        Inr v \<Rightarrow> speed v | Inl e \<Rightarrow> 0)"

text \<open>
  Magnitudes far inside the float range: with the canvas, the centre, max\_wind\_speed,
  eye\_radius and the arrow scale at most \<open>2^100\<close> in magnitude, every int-to-float conversion
  of the source succeeds and no sum, product or quotient it forms leaves the float range.
\<close>

definition moderate :: "HurricaneFlowField \<Rightarrow> real \<Rightarrow> bool" where
  "moderate self arrow_scale =
     (\<bar>width self\<bar> \<le> 2 ^ 100 \<and> \<bar>height self\<bar> \<le> 2 ^ 100
      \<and> \<bar>center_x self\<bar> \<le> 2 ^ 100 \<and> \<bar>center_y self\<bar> \<le> 2 ^ 100
      \<and> \<bar>max_wind_speed self\<bar> \<le> 2 ^ 100 \<and> \<bar>eye_radius self\<bar> \<le> 2 ^ 100
      \<and> \<bar>arrow_scale\<bar> \<le> 2 ^ 100)"

text \<open>A canvas whose grid coordinates are beyond the float range.\<close>

definition huge_field :: HurricaneFlowField where
  "huge_field = init (3 * 2 ^ 1024) (2 * 2 ^ 1024) (Some 0) (Some 0) 60 40"

text \<open>A canvas of 3 by 2 with no eye, small enough to write its whole document down.\<close>

definition tiny_field :: HurricaneFlowField where
  "tiny_field = init 3 2 (Some 1) None 100 0"

section \<open>Properties\<close>

subsection \<open>Results that do not fail\<close>

lemma bind_res_Inr [simp]: "bind_res (Inr v) f = f v"
  by (simp add: bind_res_def)

lemma bind_res_Inl [simp]: "bind_res (Inl e) f = Inl e"
  by (simp add: bind_res_def)

lemma py_div_ok: "b \<noteq> 0 \<Longrightarrow> py_div a b = Inr (a / b)"
  by (simp add: py_div_def)

lemma py_sqrt_sq [simp]: "py_sqrt (a * a + b * b) = Inr (sqrt (a * a + b * b))"
  by (simp add: py_sqrt_def not_less)

lemma radius_nonneg: "0 \<le> radius self x y"
  by (simp add: radius_def)

lemma radius_sq:
  "radius self x y * radius self x y =
     (x - center_x self) * (x - center_x self) + (y - center_y self) * (y - center_y self)"
  by (simp add: radius_def)

subsection \<open>Closed forms of velocity\_field\<close>

lemma velocity_field_dead_zone:
  "radius self x y < 0.1 \<Longrightarrow> velocity_field self x y = Inr (0, 0)"
  by (simp add: velocity_field_def radius_def Let_def)

lemma cartesian_velocity_ok:
  assumes "r > 0"
  shows "cartesian_velocity self dx dy r omega =
     Inr (- omega * dy / r
            + 0.1 * (1 - eye_radius self / max r (eye_radius self)) * (- dx / r) * max_wind_speed self * 0.1,
          omega * dx / r
            + 0.1 * (1 - eye_radius self / max r (eye_radius self)) * (- dy / r) * max_wind_speed self * 0.1)"
proof -
  have r0: "r \<noteq> 0" using assms by simp
  have m0: "max r (eye_radius self) \<noteq> 0" using assms by (simp add: max_def)
  show ?thesis
    unfolding cartesian_velocity_def
    by (simp add: py_div_ok [OF r0] py_div_ok [OF m0] Let_def)
qed

lemma velocity_field_inside:
  assumes "0.1 \<le> radius self x y" "radius self x y < eye_radius self"
  shows "velocity_field self x y =
     Inr (- (max_wind_speed self / eye_radius self) * (y - center_y self) / radius self x y,
          (max_wind_speed self / eye_radius self) * (x - center_x self) / radius self x y)"
proof -
  have rp: "radius self x y > 0" using assms by simp
  have e0: "eye_radius self \<noteq> 0" using assms by simp
  have mx: "max (radius self x y) (eye_radius self) = eye_radius self" using assms by simp
  have "velocity_field self x y =
          cartesian_velocity self (x - center_x self) (y - center_y self) (radius self x y)
            (max_wind_speed self / eye_radius self)"
    using assms
    by (simp add: velocity_field_def Let_def radius_def [symmetric] omega_solid_body_def
        py_div_ok [OF e0] not_less)
  then show ?thesis
    by (simp add: cartesian_velocity_ok [OF rp] mx e0)
qed

lemma velocity_field_outside:
  assumes "0.1 \<le> radius self x y" "eye_radius self \<le> radius self x y"
  shows "velocity_field self x y =
     Inr (- (max_wind_speed self * eye_radius self / (radius self x y * radius self x y))
              * (y - center_y self) / radius self x y
            + 0.1 * (1 - eye_radius self / radius self x y)
              * (- (x - center_x self) / radius self x y) * max_wind_speed self * 0.1,
          (max_wind_speed self * eye_radius self / (radius self x y * radius self x y))
              * (x - center_x self) / radius self x y
            + 0.1 * (1 - eye_radius self / radius self x y)
              * (- (y - center_y self) / radius self x y) * max_wind_speed self * 0.1)"
proof -
  have rp: "radius self x y > 0" using assms by simp
  have rr: "radius self x y * radius self x y \<noteq> 0" using rp by simp
  have mx: "max (radius self x y) (eye_radius self) = radius self x y" using assms by simp
  have "velocity_field self x y =
          cartesian_velocity self (x - center_x self) (y - center_y self) (radius self x y)
            (max_wind_speed self * eye_radius self / (radius self x y * radius self x y))"
    using assms
    by (simp add: velocity_field_def Let_def radius_def [symmetric] omega_potential_flow_def
        py_div_ok [OF rr] not_less)
  then show ?thesis
    by (simp add: cartesian_velocity_ok [OF rp] mx)
qed

lemma velocity_field_total: "\<exists>v. velocity_field self x y = Inr v"
proof (cases "radius self x y < 0.1")
  case True
  then show ?thesis using velocity_field_dead_zone by blast
next
  case False
  then have a: "0.1 \<le> radius self x y" by simp
  show ?thesis
  proof (cases "radius self x y < eye_radius self")
    case True
    then show ?thesis using velocity_field_inside [OF a] by blast
  next
    case False
    then have "eye_radius self \<le> radius self x y" by simp
    then show ?thesis using velocity_field_outside [OF a] by blast
  qed
qed

lemma speed_tangential:
  assumes "r > 0" "r * r = dx * dx + dy * dy"
  shows "speed (- w * dy / r, w * dx / r) = \<bar>w\<bar>"
proof -
  have "(- w * dy / r) * (- w * dy / r) + (w * dx / r) * (w * dx / r)
          = w * w * (dx * dx + dy * dy) / (r * r)"
    using assms(1) by (simp add: field_simps)
  also have "\<dots> = w * w * (r * r) / (r * r)" by (simp only: assms(2))
  also have "\<dots> = w * w" using assms(1) by simp
  finally show ?thesis by (simp add: speed_def)
qed

lemma main_field_simps:
  "width main_field = 800" "height main_field = 600"
  "center_x main_field = 400" "center_y main_field = 300"
  "max_wind_speed main_field = 60" "eye_radius main_field = 40"
  by (simp_all add: main_field_def init_def)

lemma sqrt_1600: "sqrt 1600 = (40::real)"
  by (rule real_sqrt_unique) simp_all

lemma sqrt_400: "sqrt 400 = (20::real)"
  by (rule real_sqrt_unique) simp_all

subsection \<open>The eye boundary in the configuration of main()\<close>

text \<open>
  C1. In the configuration of \<open>main()\<close> (800 by 600, centre (400, 300), max\_wind\_speed 60,
  eye\_radius 40) the point (400, 340) lies at distance 40, on the eye boundary. There both
  branch formulas give the angular velocity 60 / 40 = 1.5, and the velocity the code returns
  is (-1.5, 0): its magnitude is 1.5 and not 60, because the Cartesian conversion divides the
  angular velocity by \<open>r\<close> where solid-body rotation multiplies by it. Halfway to the
  centre, at (400, 320), the velocity is the same (-1.5, 0): inside the eye the speed does
  not grow with \<open>r\<close>.
\<close>

theorem main_boundary_velocity:
  "radius main_field 400 340 = 40
   \<and> omega_solid_body main_field = Inr (3 / 2)
   \<and> omega_potential_flow main_field (radius main_field 400 340) = Inr (3 / 2)
   \<and> velocity_field main_field 400 340 = Inr (- 3 / 2, 0)
   \<and> speed (- 3 / 2, 0) = 3 / 2
   \<and> speed (- 3 / 2, 0) \<noteq> 60
   \<and> radius main_field 400 320 = 20
   \<and> velocity_field main_field 400 320 = Inr (- 3 / 2, 0)"
proof -
  have r: "radius main_field 400 340 = 40"
    by (simp add: radius_def main_field_simps sqrt_1600)
  have a: "omega_solid_body main_field = Inr (3 / 2)"
    by (simp add: omega_solid_body_def py_div_def main_field_simps)
  have b: "omega_potential_flow main_field 40 = Inr (3 / 2)"
    by (simp add: omega_potential_flow_def py_div_def main_field_simps)
  have v: "velocity_field main_field 400 340 = Inr (- 3 / 2, 0)"
    using velocity_field_outside [of main_field 400 340]
    by (simp add: r main_field_simps)
  have "sqrt (9 / 4) = (3 / 2 :: real)"
    by (rule real_sqrt_unique) (simp_all add: power2_eq_square)
  then have s: "speed (- 3 / 2, 0) = 3 / 2"
    by (simp add: speed_def)
  have r': "radius main_field 400 320 = 20"
    by (simp add: radius_def main_field_simps sqrt_400)
  have v': "velocity_field main_field 400 320 = Inr (- 3 / 2, 0)"
    using velocity_field_inside [of main_field 400 320]
    by (simp add: r' main_field_simps)
  show ?thesis using r a b v s r' v' by simp
qed

subsection \<open>The dead zone\<close>

text \<open>
  C5. At every point whose distance from the configured centre is below 0.1,
  velocity\_field returns the zero vector, whatever the configuration.
\<close>

theorem dead_zone_zero:
  assumes "radius self x y < 0.1"
  shows "velocity_field self x y = Inr (0, 0)"
  using assms by (rule velocity_field_dead_zone)

theorem dead_zone_zero_witness:
  "radius main_field 400 300 < 0.1 \<and> velocity_field main_field 400 300 = Inr (0, 0)"
proof -
  have h: "radius main_field 400 300 < 0.1"
    by (simp add: radius_def main_field_simps)
  show ?thesis using h dead_zone_zero [OF h] by simp
qed

subsection \<open>Speed inside the eye\<close>

text \<open>
  C10. At every point with 0.1 <= r < eye\_radius the inward radial term vanishes, the
  velocity is the tangential vector \<open>(- omega * dy / r, omega * dx / r)\<close> with
  \<open>omega = max_wind_speed / eye_radius\<close>, and its magnitude is
  \<open>\<bar>max_wind_speed\<bar> / eye_radius\<close>: for the non-negative max\_wind\_speed of the
  data model this is max\_wind\_speed / eye\_radius, the same at every such point, so the
  speed does not grow with r.
\<close>

theorem eye_speed_constant:
  assumes "0.1 \<le> radius self x y" "radius self x y < eye_radius self"
  shows "\<exists>v. velocity_field self x y = Inr v
           \<and> v = (- (max_wind_speed self / eye_radius self) * (y - center_y self) / radius self x y,
                  (max_wind_speed self / eye_radius self) * (x - center_x self) / radius self x y)
           \<and> 0.1 * (1 - eye_radius self / max (radius self x y) (eye_radius self)) = 0
           \<and> speed v = \<bar>max_wind_speed self\<bar> / eye_radius self
           \<and> (0 \<le> max_wind_speed self \<longrightarrow> speed v = max_wind_speed self / eye_radius self)"
proof -
  have rp: "radius self x y > 0" using assms by simp
  have ep: "eye_radius self > 0" using assms by simp
  define w where "w = max_wind_speed self / eye_radius self"
  define v where "v = (- w * (y - center_y self) / radius self x y,
                        w * (x - center_x self) / radius self x y)"
  have vf: "velocity_field self x y = Inr v"
    unfolding v_def w_def by (rule velocity_field_inside [OF assms])
  have mx: "max (radius self x y) (eye_radius self) = eye_radius self" using assms by simp
  have rf: "0.1 * (1 - eye_radius self / max (radius self x y) (eye_radius self)) = 0"
    using ep by (simp add: mx)
  have "speed v = \<bar>w\<bar>"
    unfolding v_def by (rule speed_tangential [OF rp radius_sq])
  then have sp: "speed v = \<bar>max_wind_speed self\<bar> / eye_radius self"
    using ep by (simp add: w_def)
  then have sp': "0 \<le> max_wind_speed self \<longrightarrow> speed v = max_wind_speed self / eye_radius self"
    by simp
  have veq: "v = (- (max_wind_speed self / eye_radius self) * (y - center_y self) / radius self x y,
                  (max_wind_speed self / eye_radius self) * (x - center_x self) / radius self x y)"
    by (simp only: v_def w_def)
  show ?thesis using vf veq rf sp sp' by blast
qed

theorem eye_speed_constant_witness:
  "0.1 \<le> radius main_field 400 320 \<and> radius main_field 400 320 < eye_radius main_field
   \<and> (\<exists>v. velocity_field main_field 400 320 = Inr v \<and> speed v = 3 / 2)"
proof -
  have r: "radius main_field 400 320 = 20"
    by (simp add: radius_def main_field_simps sqrt_400)
  have h1: "0.1 \<le> radius main_field 400 320" by (simp add: r)
  have h2: "radius main_field 400 320 < eye_radius main_field" by (simp add: r main_field_simps)
  obtain v where "velocity_field main_field 400 320 = Inr v"
    and "speed v = \<bar>max_wind_speed main_field\<bar> / eye_radius main_field"
    using eye_speed_constant [OF h1 h2] by blast
  then have "\<exists>v. velocity_field main_field 400 320 = Inr v \<and> speed v = 3 / 2"
    by (auto simp add: main_field_simps)
  then show ?thesis using h1 h2 by blast
qed

subsection \<open>Polar form of the velocity\<close>

lemma velocity_field_cartesian:
  assumes "0.1 \<le> radius self x y"
  shows "velocity_field self x y =
           cartesian_velocity self (x - center_x self) (y - center_y self) (radius self x y)
             (omega_at self (radius self x y))"
proof (cases "radius self x y < eye_radius self")
  case True
  have e0: "eye_radius self \<noteq> 0" using assms True by simp
  show ?thesis
    using assms True
    by (simp add: velocity_field_def Let_def radius_def [symmetric] omega_solid_body_def
        py_div_ok [OF e0] not_less omega_at_def)
next
  case False
  have rr: "radius self x y * radius self x y \<noteq> 0" using assms by simp
  show ?thesis
    using assms False
    by (simp add: velocity_field_def Let_def radius_def [symmetric] omega_potential_flow_def
        py_div_ok [OF rr] not_less omega_at_def)
qed

lemma polar_shape:
  "(- w * dy / r + f * (- dx / r) * m * c, w * dx / r + f * (- dy / r) * m * c)
     = (w / r * (- dy) + (f * m * c) / r * (- dx), w / r * dx + (f * m * c) / r * (- dy :: real))"
  by simp

lemma velocity_field_polar:
  assumes "0.1 \<le> radius self x y"
  shows "velocity_field self x y =
     Inr (omega_at self (radius self x y) / radius self x y * (- (y - center_y self))
            + radial_at self (radius self x y) / radius self x y * (- (x - center_x self)),
          omega_at self (radius self x y) / radius self x y * (x - center_x self)
            + radial_at self (radius self x y) / radius self x y * (- (y - center_y self)))"
proof -
  have rp: "radius self x y > 0" using assms by simp
  show ?thesis
    unfolding velocity_field_cartesian [OF assms] cartesian_velocity_ok [OF rp] polar_shape radial_at_def
    by simp
qed

lemma rotate_norm:
  "(cos t * a - sin t * b) * (cos t * a - sin t * b) + (sin t * a + cos t * b) * (sin t * a + cos t * b)
     = a * a + b * (b::real)"
proof -
  have c: "cos t * cos t = 1 - sin t * sin t"
    using sin_cos_squared_add3 [of t] by linarith
  show ?thesis by (simp add: algebra_simps c)
qed

lemma radius_rotate:
  "radius self (fst (rotate_about_center self t (x, y))) (snd (rotate_about_center self t (x, y)))
     = radius self x y"
  by (simp add: radius_def rotate_about_center_def rotate_def rotate_norm)

lemma rotate_zero: "rotate t (0, 0) = (0, 0)"
  by (simp add: rotate_def)

lemma rotate_linear:
  "rotate t (A * (- dy) + B * (- dx), A * dx + B * (- dy))
    = (A * (- (sin t * dx + cos t * dy)) + B * (- (cos t * dx - sin t * dy)),
       A * (cos t * dx - sin t * dy) + B * (- (sin t * dx + cos t * dy)))"
  by (simp add: rotate_def algebra_simps)

subsection \<open>Rotational symmetry\<close>

text \<open>
  C9. The field is rotationally symmetric about the centre: for every point and every angle,
  velocity\_field at the point rotated about the configured centre is the velocity at the
  point, rotated by the same angle. Over the reals the two vectors are equal.
\<close>

theorem velocity_field_rotation:
  "\<exists>v. velocity_field self x y = Inr v
     \<and> velocity_field self (fst (rotate_about_center self t (x, y)))
                           (snd (rotate_about_center self t (x, y))) = Inr (rotate t v)"
proof -
  define x' where "x' = fst (rotate_about_center self t (x, y))"
  define y' where "y' = snd (rotate_about_center self t (x, y))"
  have r: "radius self x' y' = radius self x y"
    unfolding x'_def y'_def by (rule radius_rotate)
  have dx': "x' - center_x self = cos t * (x - center_x self) - sin t * (y - center_y self)"
    by (simp add: x'_def rotate_about_center_def rotate_def)
  have dy': "y' - center_y self = sin t * (x - center_x self) + cos t * (y - center_y self)"
    by (simp add: y'_def rotate_about_center_def rotate_def)
  have "\<exists>v. velocity_field self x y = Inr v \<and> velocity_field self x' y' = Inr (rotate t v)"
  proof (cases "radius self x y < 0.1")
    case True
    then have "velocity_field self x y = Inr (0, 0)" "velocity_field self x' y' = Inr (0, 0)"
      using velocity_field_dead_zone [of self x y] velocity_field_dead_zone [of self x' y'] r
      by simp_all
    then show ?thesis by (simp add: rotate_zero)
  next
    case False
    then have a: "0.1 \<le> radius self x y" by simp
    then have a': "0.1 \<le> radius self x' y'" by (simp add: r)
    have "velocity_field self x' y' = Inr (rotate t
       (omega_at self (radius self x y) / radius self x y * (- (y - center_y self))
            + radial_at self (radius self x y) / radius self x y * (- (x - center_x self)),
          omega_at self (radius self x y) / radius self x y * (x - center_x self)
            + radial_at self (radius self x y) / radius self x y * (- (y - center_y self))))"
      unfolding velocity_field_polar [OF a'] r dx' dy' rotate_linear by (rule refl)
    then show ?thesis using velocity_field_polar [OF a] by simp
  qed
  then show ?thesis by (simp only: x'_def y'_def)
qed

lemma speed_polar:
  assumes "r > 0" "r * r = dx * dx + dy * dy"
  shows "speed (A / r * (- dy) + B / r * (- dx), A / r * dx + B / r * (- dy)) = sqrt (A * A + B * B)"
proof -
  have r0: "r \<noteq> 0" using assms(1) by simp
  have "(A / r * (- dy) + B / r * (- dx)) * (A / r * (- dy) + B / r * (- dx))
          + (A / r * dx + B / r * (- dy)) * (A / r * dx + B / r * (- dy))
        = (A * A + B * B) * (dx * dx + dy * dy) / (r * r)"
    using r0 by (simp add: field_simps)
  also have "\<dots> = (A * A + B * B) * (r * r) / (r * r)" by (simp only: assms(2))
  also have "\<dots> = A * A + B * B" using r0 by simp
  finally show ?thesis by (simp add: speed_def)
qed

lemma speed_velocity_field:
  assumes "0.1 \<le> radius self x y"
  shows "\<exists>v. velocity_field self x y = Inr v \<and> speed v = speed_profile self (radius self x y)"
proof -
  have rp: "radius self x y > 0" using assms by simp
  show ?thesis
    unfolding velocity_field_polar [OF assms] speed_profile_def
    using speed_polar [OF rp radius_sq] by simp
qed

lemma omega_at_max:
  assumes "0 < eye_radius self"
  shows "omega_at self r
           = max_wind_speed self * eye_radius self / (max r (eye_radius self) * max r (eye_radius self))"
  using assms by (simp add: omega_at_def max_def)

lemma speed_profile_isCont:
  assumes "0 < eye_radius self"
  shows "isCont (speed_profile self) r"
proof -
  have m0: "max r (eye_radius self) \<noteq> 0" using assms by (simp add: max_def)
  have eq: "speed_profile self =
     (\<lambda>r. sqrt ((max_wind_speed self * eye_radius self / (max r (eye_radius self) * max r (eye_radius self)))
                  * (max_wind_speed self * eye_radius self / (max r (eye_radius self) * max r (eye_radius self)))
               + (0.1 * (1.0 - eye_radius self / max r (eye_radius self)) * max_wind_speed self * 0.1)
                  * (0.1 * (1.0 - eye_radius self / max r (eye_radius self)) * max_wind_speed self * 0.1)))"
    by (rule ext) (simp only: speed_profile_def omega_at_max [OF assms] radial_at_def)
  show ?thesis
    unfolding eq using m0 by (intro continuous_intros) simp_all
qed

lemma boundary_omegas:
  assumes "0.1 < eye_radius self"
  shows "omega_solid_body self = Inr (max_wind_speed self / eye_radius self)"
    and "omega_potential_flow self (eye_radius self) = Inr (max_wind_speed self / eye_radius self)"
  using assms by (simp_all add: omega_solid_body_def omega_potential_flow_def py_div_def)

subsection \<open>The two branches at the eye boundary\<close>

text \<open>
  C2. For every configuration with eye\_radius > 0.1: the solid-body formula and the
  potential-flow formula give the same angular velocity at r = eye\_radius; at every point
  on the boundary either formula, followed by the Cartesian conversion with the spiral term,
  gives the vector velocity\_field returns; and the magnitude of the field, which at distance
  r >= 0.1 is the speed profile of r, is continuous at r = eye\_radius.
\<close>

theorem boundary_continuity:
  assumes "0.1 < eye_radius self"
  shows "omega_solid_body self = omega_potential_flow self (eye_radius self)
    \<and> (\<forall>x y. radius self x y = eye_radius self \<longrightarrow>
          bind_res (omega_solid_body self)
            (cartesian_velocity self (x - center_x self) (y - center_y self) (radius self x y))
          = velocity_field self x y
        \<and> bind_res (omega_potential_flow self (radius self x y))
            (cartesian_velocity self (x - center_x self) (y - center_y self) (radius self x y))
          = velocity_field self x y)
    \<and> (\<forall>x y. 0.1 \<le> radius self x y \<longrightarrow>
          (\<exists>v. velocity_field self x y = Inr v \<and> speed v = speed_profile self (radius self x y)))
    \<and> isCont (speed_profile self) (eye_radius self)"
proof -
  have ep: "0 < eye_radius self" using assms by simp
  have a: "omega_solid_body self = omega_potential_flow self (eye_radius self)"
    by (simp only: boundary_omegas [OF assms])
  have b: "bind_res (omega_solid_body self)
            (cartesian_velocity self (x - center_x self) (y - center_y self) (radius self x y))
          = velocity_field self x y
        \<and> bind_res (omega_potential_flow self (radius self x y))
            (cartesian_velocity self (x - center_x self) (y - center_y self) (radius self x y))
          = velocity_field self x y" if r: "radius self x y = eye_radius self" for x y
  proof -
    have r1: "0.1 \<le> radius self x y" using assms r by simp
    have w: "omega_at self (eye_radius self) = max_wind_speed self / eye_radius self"
      using ep by (simp add: omega_at_def)
    show ?thesis
      unfolding velocity_field_cartesian [OF r1] r boundary_omegas [OF assms] w by simp
  qed
  have c: "\<exists>v. velocity_field self x y = Inr v \<and> speed v = speed_profile self (radius self x y)"
    if "0.1 \<le> radius self x y" for x y
    using that by (rule speed_velocity_field)
  have d: "isCont (speed_profile self) (eye_radius self)"
    by (rule speed_profile_isCont [OF ep])
  show ?thesis using a b c d by blast
qed

theorem boundary_continuity_witness:
  "0.1 < eye_radius main_field
   \<and> omega_solid_body main_field = omega_potential_flow main_field (eye_radius main_field)
   \<and> isCont (speed_profile main_field) (eye_radius main_field)"
proof -
  have h: "0.1 < eye_radius main_field" by (simp add: main_field_simps)
  show ?thesis using h boundary_continuity [OF h] by blast
qed

subsection \<open>Ranges and the grid loop\<close>

lemma py_range_spacing:
  assumes "0 < spacing"
  shows "py_range spacing stop spacing = Inr (multiples_below spacing stop)"
  using assms by (simp add: py_range_def multiples_below_def)

lemma length_multiples_below: "length (multiples_below spacing stop) = nat ((stop - 1) div spacing)"
  by (simp add: multiples_below_def)

lemma set_multiples_below:
  assumes "0 < spacing"
  shows "set (multiples_below spacing stop) = {x. spacing \<le> x \<and> x < stop \<and> spacing dvd x}"
proof (rule set_eqI, rule iffI)
  fix x assume "x \<in> set (multiples_below spacing stop)"
  then obtain i where i: "i < nat ((stop - 1) div spacing)" and x: "x = spacing + int i * spacing"
    by (auto simp add: multiples_below_def)
  have x': "x = (int i + 1) * spacing" using x by (simp add: algebra_simps)
  have "int i + 1 \<le> (stop - 1) div spacing" using i by linarith
  then have "(int i + 1) * spacing \<le> ((stop - 1) div spacing) * spacing"
    using assms by (simp add: mult_right_mono)
  also have "\<dots> \<le> stop - 1"
  proof -
    have "spacing * ((stop - 1) div spacing) + (stop - 1) mod spacing = stop - 1"
      by (rule mult_div_mod_eq)
    moreover have "0 \<le> (stop - 1) mod spacing"
      using assms by (rule pos_mod_sign)
    moreover have "((stop - 1) div spacing) * spacing = spacing * ((stop - 1) div spacing)"
      by (rule mult.commute)
    ultimately show ?thesis by linarith
  qed
  finally have "x < stop" using x' by simp
  moreover have "spacing \<le> x" using x assms by simp
  moreover have "spacing dvd x" using x' by simp
  ultimately show "x \<in> {x. spacing \<le> x \<and> x < stop \<and> spacing dvd x}" by simp
next
  fix x assume "x \<in> {x. spacing \<le> x \<and> x < stop \<and> spacing dvd x}"
  then have a: "spacing \<le> x" "x < stop" "spacing dvd x" by simp_all
  then obtain k where k: "x = spacing * k" by (auto simp add: dvd_def)
  have k1: "1 \<le> k"
  proof (rule ccontr)
    assume "\<not> 1 \<le> k"
    then have "k \<le> 0" by simp
    then have "spacing * k \<le> 0" using assms by (simp add: mult_le_0_iff)
    then show False using a(1) k assms by simp
  qed
  have "k * spacing \<le> stop - 1" using a(2) k by (simp add: mult.commute)
  then have "(k * spacing) div spacing \<le> (stop - 1) div spacing"
    using assms by (rule zdiv_mono1)
  then have "k \<le> (stop - 1) div spacing"
    using assms by simp
  then have "nat (k - 1) < nat ((stop - 1) div spacing)" using k1 by linarith
  moreover have "x = spacing + int (nat (k - 1)) * spacing" using k k1 by (simp add: algebra_simps)
  ultimately show "x \<in> set (multiples_below spacing stop)"
    unfolding multiples_below_def by (auto simp add: image_iff intro!: bexI [of _ "nat (k - 1)"])
qed

lemma sorted_multiples_below:
  assumes "0 < spacing"
  shows "sorted_wrt (<) (multiples_below spacing stop)"
  using assms by (simp add: multiples_below_def sorted_wrt_map sorted_wrt_iff_nth_less)

lemma grid_loop_concat:
  assumes "py_range spacing (height self) spacing = Inr ys"
  shows "grid_loop self spacing xs points = Inr (points @ concat (map (\<lambda>x. map (\<lambda>y. (x, y)) ys) xs))"
  using assms by (induction xs arbitrary: points) simp_all

lemma length_concat_rows:
  "length (concat (map (\<lambda>x. map (\<lambda>y. (x, y)) ys) xs)) = length xs * length ys"
  by (induction xs) simp_all

lemma generate_grid_pos:
  assumes "0 < spacing"
  shows "generate_grid self spacing =
           Inr (concat (map (\<lambda>x. map (\<lambda>y. (x, y)) (multiples_below spacing (height self)))
                            (multiples_below spacing (width self))))"
  by (simp add: generate_grid_def py_range_spacing [OF assms]
      grid_loop_concat [OF py_range_spacing [OF assms]])

lemma multiples_below_small:
  assumes "0 < spacing" "stop \<le> spacing"
  shows "multiples_below spacing stop = []"
proof -
  have "stop - 1 \<le> spacing - 1" using assms by simp
  then have "(stop - 1) div spacing \<le> (spacing - 1) div spacing"
    using assms(1) by (rule zdiv_mono1)
  moreover have "(spacing - 1) div spacing = 0"
    using assms(1) by (simp add: div_pos_pos_trivial)
  ultimately show ?thesis by (simp add: multiples_below_def)
qed

lemma small_canvas_grid:
  assumes "0 < spacing" "width self \<le> spacing \<or> height self \<le> spacing"
  shows "generate_grid self spacing = Inr []"
  using assms multiples_below_small [OF assms(1)]
  by (auto simp add: generate_grid_pos [OF assms(1)])

lemma main_grid_length:
  assumes "generate_grid main_field 25 = Inr grid"
  shows "length grid = 713"
proof -
  have h: "(0::int) < 25" by simp
  show ?thesis
    using assms
    by (auto simp add: generate_grid_pos [OF h] length_concat_rows length_multiples_below main_field_simps)
qed

lemma py_range_total: "step \<noteq> 0 \<Longrightarrow> \<exists>xs. py_range start stop step = Inr xs"
  by (simp add: py_range_def)

lemma generate_grid_total:
  assumes "spacing \<noteq> 0"
  shows "\<exists>grid. generate_grid self spacing = Inr grid"
proof -
  obtain xs where xs: "py_range spacing (width self) spacing = Inr xs"
    using py_range_total [OF assms] by blast
  obtain ys where ys: "py_range spacing (height self) spacing = Inr ys"
    using py_range_total [OF assms] by blast
  show ?thesis by (simp add: generate_grid_def xs grid_loop_concat [OF ys])
qed

lemma generate_grid_zero: "generate_grid self 0 = Inl ValueError"
  by (simp add: generate_grid_def py_range_def)

subsection \<open>The grid\<close>

text \<open>
  C7. For a positive spacing, generate\_grid returns the points (x, y) with x over
  \<open>range(spacing, width, spacing)\<close> and y over \<open>range(spacing, height, spacing)\<close>, that is
  the multiples of spacing in [spacing, width) and [spacing, height), each range increasing,
  with x in the outer loop and y in the inner one; their number is
  ((width - 1) div spacing) * ((height - 1) div spacing), which for 800 by 600 and spacing 25
  is 31 * 23 = 713.
\<close>

theorem generate_grid_points:
  assumes "0 < spacing"
  shows "\<exists>xs ys. py_range spacing (width self) spacing = Inr xs
           \<and> py_range spacing (height self) spacing = Inr ys
           \<and> set xs = {x. spacing \<le> x \<and> x < width self \<and> spacing dvd x}
           \<and> set ys = {y. spacing \<le> y \<and> y < height self \<and> spacing dvd y}
           \<and> sorted_wrt (<) xs \<and> sorted_wrt (<) ys
           \<and> generate_grid self spacing = Inr (concat (map (\<lambda>x. map (\<lambda>y. (x, y)) ys) xs))
           \<and> length (concat (map (\<lambda>x. map (\<lambda>y. (x, y)) ys) xs))
               = nat ((width self - 1) div spacing) * nat ((height self - 1) div spacing)"
  using py_range_spacing [OF assms] set_multiples_below [OF assms] sorted_multiples_below [OF assms]
    generate_grid_pos [OF assms, of self]
  by (simp add: length_concat_rows length_multiples_below)

theorem generate_grid_points_witness:
  "(0::int) < 25 \<and> (\<exists>grid. generate_grid main_field 25 = Inr grid \<and> length grid = 713)"
proof -
  have h: "(0::int) < 25" by simp
  obtain xs ys where
    g: "generate_grid main_field 25 = Inr (concat (map (\<lambda>x. map (\<lambda>y. (x, y)) ys) xs))"
    and l: "length (concat (map (\<lambda>x. map (\<lambda>y. (x, y)) ys) xs))
               = nat ((width main_field - 1) div 25) * nat ((height main_field - 1) div 25)"
    using generate_grid_points [OF h, of main_field] by blast
  have "nat ((width main_field - 1) div 25) * nat ((height main_field - 1) div 25) = 713"
    by (simp add: main_field_simps)
  then show ?thesis using h g l by simp
qed

subsection \<open>Results of arrow\_path\<close>

lemma speed_nonneg: "0 \<le> speed v"
  by (simp add: speed_def)

lemma arrow_path_slow:
  assumes "speed (vx, vy) < 0.01"
  shows "arrow_path self x y vx vy scale arrow_length = Inr None"
  using assms by (simp add: arrow_path_def speed_def)

lemma arrow_path_fast:
  assumes "0.01 \<le> speed (vx, vy)" "max_wind_speed self \<noteq> 0"
  shows "\<exists>p. arrow_path self x y vx vy scale arrow_length = Inr (Some p)
           \<and> start_x p = x \<and> start_y p = y
           \<and> tip_x p = x + vx / speed (vx, vy) * (arrow_length * scale * min (speed (vx, vy) / max_wind_speed self) 1)
           \<and> tip_y p = y + vy / speed (vx, vy) * (arrow_length * scale * min (speed (vx, vy) / max_wind_speed self) 1)"
proof -
  have s0: "speed (vx, vy) \<noteq> 0" using assms(1) by simp
  have ns: "\<not> sqrt (vx * vx + vy * vy) < 1 / 100" using assms(1) by (simp add: speed_def)
  show ?thesis
    using ns s0 assms(2)
    by (simp add: arrow_path_def py_div_def Let_def speed_def)
qed

lemma arrow_path_zero_wind:
  assumes "0.01 \<le> speed (vx, vy)" "max_wind_speed self = 0"
  shows "arrow_path self x y vx vy scale arrow_length = Inl ZeroDivisionError"
  using assms by (simp add: arrow_path_def py_div_def speed_def not_less [symmetric])

lemma shaft_length_scaled:
  assumes "s > 0" "s * s = vx * vx + vy * vy"
  shows "sqrt ((x + vx / s * l - x) * (x + vx / s * l - x) + (y + vy / s * l - y) * (y + vy / s * l - y)) = \<bar>l\<bar>"
proof -
  have s0: "s \<noteq> 0" using assms(1) by simp
  have "(x + vx / s * l - x) * (x + vx / s * l - x) + (y + vy / s * l - y) * (y + vy / s * l - y)
          = l * l * (vx * vx + vy * vy) / (s * s)"
    using s0 by (simp add: field_simps)
  also have "\<dots> = l * l * (s * s) / (s * s)" by (simp only: assms(2))
  also have "\<dots> = l * l" using s0 by simp
  finally show ?thesis by simp
qed

lemma speed_sq: "speed (vx, vy) * speed (vx, vy) = vx * vx + vy * vy"
  by (simp add: speed_def)

lemma sqrt_25: "sqrt 25 = (5::real)"
  by (rule real_sqrt_unique) simp_all

subsection \<open>Length clipping\<close>

text \<open>
  C4. With the positive max\_wind\_speed and the non-negative arrow\_length * scale of the data
  model, for any velocity sample: below speed 0.01 arrow\_path returns the empty path; otherwise
  it returns an arrow whose shaft length is
  arrow\_length * scale * min(speed / max\_wind\_speed, 1.0), which never exceeds
  arrow\_length * scale.
\<close>

theorem shaft_length_clipped:
  assumes "0 < max_wind_speed self" "0 \<le> arrow_length * scale"
  shows "(speed (vx, vy) < 0.01 \<longrightarrow> arrow_path self x y vx vy scale arrow_length = Inr None)
       \<and> (0.01 \<le> speed (vx, vy) \<longrightarrow>
            (\<exists>p. arrow_path self x y vx vy scale arrow_length = Inr (Some p)
               \<and> shaft_length p = arrow_length * scale * min (speed (vx, vy) / max_wind_speed self) 1.0
               \<and> shaft_length p \<le> arrow_length * scale))"
proof (intro conjI impI)
  assume "speed (vx, vy) < 0.01"
  then show "arrow_path self x y vx vy scale arrow_length = Inr None" by (rule arrow_path_slow)
next
  assume f: "0.01 \<le> speed (vx, vy)"
  have m0: "max_wind_speed self \<noteq> 0" using assms(1) by simp
  have sp: "speed (vx, vy) > 0" using f by simp
  define l where "l = arrow_length * scale * min (speed (vx, vy) / max_wind_speed self) 1"
  obtain p where p: "arrow_path self x y vx vy scale arrow_length = Inr (Some p)"
    "start_x p = x" "start_y p = y"
    "tip_x p = x + vx / speed (vx, vy) * l" "tip_y p = y + vy / speed (vx, vy) * l"
    using arrow_path_fast [OF f m0, of x y scale arrow_length] unfolding l_def by blast
  have "0 \<le> min (speed (vx, vy) / max_wind_speed self) 1"
    using sp assms(1) by simp
  then have l0: "0 \<le> l" unfolding l_def using assms(2) by simp
  have "shaft_length p = \<bar>l\<bar>"
    unfolding shaft_length_def p(2-5) by (rule shaft_length_scaled [OF sp speed_sq])
  then have sl: "shaft_length p = l" using l0 by simp
  have "l \<le> arrow_length * scale * 1"
    unfolding l_def using assms(2) by (intro mult_left_mono) simp_all
  then have "shaft_length p \<le> arrow_length * scale" using sl by simp
  then show "\<exists>p. arrow_path self x y vx vy scale arrow_length = Inr (Some p)
               \<and> shaft_length p = arrow_length * scale * min (speed (vx, vy) / max_wind_speed self) 1.0
               \<and> shaft_length p \<le> arrow_length * scale"
    using p(1) sl by (auto simp add: l_def)
qed

theorem shaft_length_clipped_witness:
  "0 < max_wind_speed main_field \<and> (0::real) \<le> 20 * 1.2 \<and> 0.01 \<le> speed (3, 4)
   \<and> (\<exists>p. arrow_path main_field 0 0 3 4 1.2 20 = Inr (Some p)
          \<and> shaft_length p = 2 \<and> shaft_length p \<le> 20 * 1.2)"
proof -
  have h1: "0 < max_wind_speed main_field" by (simp add: main_field_simps)
  have h2: "(0::real) \<le> 20 * 1.2" by simp
  have s: "speed (3, 4) = 5" by (simp add: speed_def sqrt_25)
  have h3: "0.01 \<le> speed (3, 4)" by (simp add: s)
  obtain p where p: "arrow_path main_field 0 0 3 4 1.2 20 = Inr (Some p)"
    "shaft_length p = 20 * 1.2 * min (speed (3, 4) / max_wind_speed main_field) 1.0"
    "shaft_length p \<le> 20 * 1.2"
    using shaft_length_clipped [OF h1 h2, of 3 4 0 0] h3 by blast
  have "shaft_length p = 2" using p(2) by (simp add: s main_field_simps)
  then show ?thesis using h1 h2 h3 p(1,3) by blast
qed

subsection \<open>Integers that meet float arithmetic\<close>

lemma float_limit_moderate: "(2::int) ^ 100 < float_limit"
  by (simp add: float_limit_def)

lemma py_float_ok: "\<bar>i\<bar> < float_limit \<Longrightarrow> py_float i = Inr (real_of_int i)"
  by (simp add: py_float_def)

lemma py_float_overflow: "\<not> \<bar>i\<bar> < float_limit \<Longrightarrow> py_float i = Inl OverflowError"
  by (simp add: py_float_def)

lemma le_div_mult:
  assumes "0 < b" "k \<le> a div b"
  shows "k * b \<le> (a::int)"
proof -
  have "k * b \<le> (a div b) * b" using assms by (simp add: mult_right_mono)
  moreover have "b * (a div b) + a mod b = a" by (rule mult_div_mod_eq)
  moreover have "0 \<le> a mod b" using assms(1) by (rule pos_mod_sign)
  moreover have "(a div b) * b = b * (a div b)" by (rule mult.commute)
  ultimately show ?thesis by linarith
qed

lemma py_range_between:
  assumes "py_range start stop step = Inr xs" "x \<in> set xs"
  shows "(0 < step \<and> start \<le> x \<and> x < stop) \<or> (step < 0 \<and> stop < x \<and> x \<le> start)"
proof (cases "0 < step")
  case True
  then obtain i where i: "i < nat ((stop - start + step - 1) div step)" and x: "x = start + int i * step"
    using assms by (auto simp add: py_range_def)
  have "int i + 1 \<le> (stop - start + step - 1) div step" using i by linarith
  then have "(int i + 1) * step \<le> stop - start + step - 1" using True by (rule le_div_mult [rotated])
  then have "int i * step \<le> stop - start - 1" by (simp add: algebra_simps)
  moreover have "0 \<le> int i * step" using True by simp
  ultimately show ?thesis using True x by simp
next
  case False
  have s0: "step \<noteq> 0" using assms(1) by (auto simp add: py_range_def split: if_splits)
  then have neg: "step < 0" using False by simp
  then have pos: "0 < - step" by simp
  obtain i where i: "i < nat ((start - stop - step - 1) div (- step))" and x: "x = start + int i * step"
    using assms neg by (auto simp add: py_range_def)
  have "int i + 1 \<le> (start - stop - step - 1) div (- step)" using i by linarith
  then have "(int i + 1) * (- step) \<le> start - stop - step - 1" using pos by (rule le_div_mult [rotated])
  then have "int i * (- step) \<le> start - stop - 1" by (simp add: algebra_simps)
  moreover have "0 \<le> int i * (- step)" using pos by (intro mult_nonneg_nonneg) simp_all
  moreover have "x = start - int i * (- step)" using x by simp
  ultimately show ?thesis using neg by linarith
qed

lemma py_range_spacing_abs:
  assumes "py_range spacing stop spacing = Inr xs" "x \<in> set xs"
  shows "\<bar>x\<bar> < \<bar>stop\<bar>"
  using py_range_between [OF assms] by auto

lemma generate_grid_members:
  assumes "generate_grid self spacing = Inr grid" "(x, y) \<in> set grid"
  shows "\<exists>xs ys. py_range spacing (width self) spacing = Inr xs
           \<and> py_range spacing (height self) spacing = Inr ys
           \<and> x \<in> set xs \<and> y \<in> set ys"
proof -
  have s0: "spacing \<noteq> 0"
    using assms(1) by (auto simp add: generate_grid_zero)
  obtain xs where xs: "py_range spacing (width self) spacing = Inr xs"
    using py_range_total [OF s0] by blast
  obtain ys where ys: "py_range spacing (height self) spacing = Inr ys"
    using py_range_total [OF s0] by blast
  have "grid = concat (map (\<lambda>x. map (\<lambda>y. (x, y)) ys) xs)"
    using assms(1) by (simp add: generate_grid_def xs grid_loop_concat [OF ys])
  then have "x \<in> set xs \<and> y \<in> set ys" using assms(2) by auto
  then show ?thesis using xs ys by blast
qed

lemma grid_coordinates_bounded:
  assumes "generate_grid self spacing = Inr grid" "(x, y) \<in> set grid"
  shows "\<bar>x\<bar> < \<bar>width self\<bar> \<and> \<bar>y\<bar> < \<bar>height self\<bar>"
proof -
  obtain xs ys where "py_range spacing (width self) spacing = Inr xs"
    "py_range spacing (height self) spacing = Inr ys" "x \<in> set xs" "y \<in> set ys"
    using generate_grid_members [OF assms] by blast
  then show ?thesis using py_range_spacing_abs by blast
qed

lemma moderate_grid:
  assumes "moderate self arrow_scale" "generate_grid self spacing = Inr grid"
  shows "list_all (\<lambda>p. \<bar>fst p\<bar> < float_limit \<and> \<bar>snd p\<bar> < float_limit) grid"
proof -
  have w: "\<bar>width self\<bar> \<le> 2 ^ 100" and h: "\<bar>height self\<bar> \<le> 2 ^ 100"
    using assms(1) by (simp_all add: moderate_def)
  have "\<bar>fst p\<bar> < float_limit \<and> \<bar>snd p\<bar> < float_limit" if "p \<in> set grid" for p
  proof -
    have "(fst p, snd p) \<in> set grid" using that by simp
    then have "\<bar>fst p\<bar> < \<bar>width self\<bar> \<and> \<bar>snd p\<bar> < \<bar>height self\<bar>"
      by (rule grid_coordinates_bounded [OF assms(2)])
    then show ?thesis using w h float_limit_moderate by linarith
  qed
  then show ?thesis by (simp add: list_all_iff)
qed

lemma main_field_moderate: "moderate main_field 1.2"
  by (simp add: moderate_def main_field_simps)

subsection \<open>The loop of generate\_svg\<close>

lemma zero_wind_velocity:
  assumes "max_wind_speed self = 0"
  shows "velocity_field self x y = Inr (0, 0)"
proof (cases "radius self x y < 0.1")
  case True
  then show ?thesis by (rule velocity_field_dead_zone)
next
  case False
  then have a: "0.1 \<le> radius self x y" by simp
  show ?thesis
    unfolding velocity_field_polar [OF a] by (simp add: omega_at_def radial_at_def assms)
qed

lemma speed_zero: "speed (0, 0) = 0"
  by (simp add: speed_def)

lemma zero_wind_sample_speed:
  assumes "max_wind_speed self = 0"
  shows "sample_speed self p = 0"
  by (simp add: sample_speed_def zero_wind_velocity [OF assms] speed_zero)

lemma sample_arrow:
  "\<exists>v a. velocity_field self X Y = Inr v
     \<and> arrow_path self X Y (fst v) (snd v) scale arrow_length = Inr a
     \<and> (if speed v < 0.01 then a = None
         else \<exists>q. a = Some q \<and> start_x q = X \<and> start_y q = Y)"
proof -
  obtain v where v: "velocity_field self X Y = Inr v" using velocity_field_total by blast
  show ?thesis
  proof (cases "speed v < 0.01")
    case True
    then have "arrow_path self X Y (fst v) (snd v) scale arrow_length = Inr None"
      using arrow_path_slow [of "fst v" "snd v"] by simp
    then show ?thesis using v True by auto
  next
    case False
    then have f: "0.01 \<le> speed (fst v, snd v)" by simp
    have m0: "max_wind_speed self \<noteq> 0"
    proof
      assume "max_wind_speed self = 0"
      then have "v = (0, 0)" using zero_wind_velocity [of self X Y] v by simp
      then show False using False by (simp add: speed_zero)
    qed
    obtain q where "arrow_path self X Y (fst v) (snd v) scale arrow_length = Inr (Some q)"
      "start_x q = X" "start_y q = Y"
      using arrow_path_fast [OF f m0, of X Y scale arrow_length] by blast
    then show ?thesis using v False by auto
  qed
qed

lemma arrows_loop_step:
  assumes "\<bar>x\<bar> < float_limit" "\<bar>y\<bar> < float_limit"
  shows "\<exists>a. arrows_loop self arrow_scale ((x, y) # ps) acc
               = arrows_loop self arrow_scale ps (case a of None \<Rightarrow> acc | Some q \<Rightarrow> acc @ [q])
           \<and> (if sample_speed self (x, y) < 0.01 then a = None
               else \<exists>q. a = Some q \<and> start_x q = real_of_int x \<and> start_y q = real_of_int y)"
proof -
  obtain v a where v: "velocity_field self (real_of_int x) (real_of_int y) = Inr v"
    and a: "arrow_path self (real_of_int x) (real_of_int y) (fst v) (snd v) arrow_scale 20 = Inr a"
    and c: "if speed v < 0.01 then a = None
            else \<exists>q. a = Some q \<and> start_x q = real_of_int x \<and> start_y q = real_of_int y"
    using sample_arrow [of self "real_of_int x" "real_of_int y" arrow_scale 20] by blast
  have ss: "sample_speed self (x, y) = speed v" by (simp add: sample_speed_def v)
  have st: "arrows_loop self arrow_scale ((x, y) # ps) acc
          = arrows_loop self arrow_scale ps (case a of None \<Rightarrow> acc | Some q \<Rightarrow> acc @ [q])"
    using a by (simp add: py_float_ok [OF assms(1)] py_float_ok [OF assms(2)] v case_prod_beta)
  from st c show ?thesis unfolding ss by blast
qed

lemma arrows_loop_overflow_head:
  assumes "\<not> (\<bar>x\<bar> < float_limit \<and> \<bar>y\<bar> < float_limit)"
  shows "arrows_loop self arrow_scale ((x, y) # ps) acc = Inl OverflowError"
proof (cases "\<bar>x\<bar> < float_limit")
  case True
  then have "\<not> \<bar>y\<bar> < float_limit" using assms by simp
  then show ?thesis by (simp add: py_float_ok [OF True] py_float_overflow)
next
  case False
  then show ?thesis by (simp add: py_float_overflow)
qed

lemma arrows_loop_filter:
  assumes "list_all (\<lambda>p. \<bar>fst p\<bar> < float_limit \<and> \<bar>snd p\<bar> < float_limit) ps"
  shows "\<exists>r. arrows_loop self arrow_scale ps acc = Inr (acc @ r)
     \<and> map (\<lambda>q. (start_x q, start_y q)) r
         = map (\<lambda>p. (real_of_int (fst p), real_of_int (snd p)))
             (filter (\<lambda>p. 0.01 \<le> sample_speed self p) ps)"
  using assms
proof (induction ps arbitrary: acc)
  case Nil
  show ?case by simp
next
  case (Cons p ps)
  obtain x y where p: "p = (x, y)" by (cases p)
  have xr: "\<bar>x\<bar> < float_limit" and yr: "\<bar>y\<bar> < float_limit"
    and rest: "list_all (\<lambda>p. \<bar>fst p\<bar> < float_limit \<and> \<bar>snd p\<bar> < float_limit) ps"
    using Cons.prems by (simp_all add: p)
  obtain a where step: "arrows_loop self arrow_scale (p # ps) acc
        = arrows_loop self arrow_scale ps (case a of None \<Rightarrow> acc | Some q \<Rightarrow> acc @ [q])"
    and c: "if sample_speed self p < 0.01 then a = None
            else \<exists>q. a = Some q \<and> start_x q = real_of_int x \<and> start_y q = real_of_int y"
    using arrows_loop_step [OF xr yr, of self arrow_scale ps acc] unfolding p by blast
  show ?case
  proof (cases "sample_speed self p < 0.01")
    case True
    then have "a = None" using c by simp
    then show ?thesis using Cons.IH [OF rest, of acc] step True by simp
  next
    case False
    then obtain q where q: "a = Some q" "start_x q = real_of_int x" "start_y q = real_of_int y"
      using c by auto
    obtain r where r: "arrows_loop self arrow_scale ps (acc @ [q]) = Inr ((acc @ [q]) @ r)"
      "map (\<lambda>q. (start_x q, start_y q)) r
         = map (\<lambda>p. (real_of_int (fst p), real_of_int (snd p)))
             (filter (\<lambda>p. 0.01 \<le> sample_speed self p) ps)"
      using Cons.IH [OF rest, of "acc @ [q]"] by blast
    have "arrows_loop self arrow_scale (p # ps) acc = Inr (acc @ (q # r))"
      using step q(1) r(1) by simp
    moreover have "map (\<lambda>q. (start_x q, start_y q)) (q # r)
         = map (\<lambda>p. (real_of_int (fst p), real_of_int (snd p)))
             (filter (\<lambda>p. 0.01 \<le> sample_speed self p) (p # ps))"
      using r(2) q(2,3) False by (simp add: p)
    ultimately show ?thesis by blast
  qed
qed

lemma arrows_loop_overflow:
  assumes "\<not> list_all (\<lambda>p. \<bar>fst p\<bar> < float_limit \<and> \<bar>snd p\<bar> < float_limit) ps"
  shows "arrows_loop self arrow_scale ps acc = Inl OverflowError"
  using assms
proof (induction ps arbitrary: acc)
  case Nil
  then show ?case by simp
next
  case (Cons p ps)
  obtain x y where p: "p = (x, y)" by (cases p)
  show ?case
  proof (cases "\<bar>x\<bar> < float_limit \<and> \<bar>y\<bar> < float_limit")
    case True
    then have rest: "\<not> list_all (\<lambda>p. \<bar>fst p\<bar> < float_limit \<and> \<bar>snd p\<bar> < float_limit) ps"
      using Cons.prems by (simp add: p)
    obtain a where "arrows_loop self arrow_scale (p # ps) acc
        = arrows_loop self arrow_scale ps (case a of None \<Rightarrow> acc | Some q \<Rightarrow> acc @ [q])"
      using arrows_loop_step [of x y self arrow_scale ps acc] True unfolding p by blast
    then show ?thesis using Cons.IH [OF rest] by simp
  next
    case False
    then show ?thesis unfolding p by (rule arrows_loop_overflow_head)
  qed
qed

lemma generate_svg_paths:
  assumes "generate_grid self spacing = Inr grid"
    and "list_all (\<lambda>p. \<bar>fst p\<bar> < float_limit \<and> \<bar>snd p\<bar> < float_limit) grid"
  shows "\<exists>doc. generate_svg self spacing arrow_scale stroke_width stroke_color = Inr doc
           \<and> svg_width doc = width self \<and> svg_height doc = height self
           \<and> circle_cx doc = center_x self \<and> circle_cy doc = center_y self
           \<and> circle_r doc = eye_radius self
           \<and> map (\<lambda>q. (start_x q, start_y q)) (paths doc)
               = map (\<lambda>p. (real_of_int (fst p), real_of_int (snd p)))
                   (filter (\<lambda>p. 0.01 \<le> sample_speed self p) grid)"
proof -
  obtain r where r: "arrows_loop self arrow_scale grid [] = Inr r"
    "map (\<lambda>q. (start_x q, start_y q)) r
         = map (\<lambda>p. (real_of_int (fst p), real_of_int (snd p)))
             (filter (\<lambda>p. 0.01 \<le> sample_speed self p) grid)"
    using arrows_loop_filter [OF assms(2), of self arrow_scale "[]"] by auto
  show ?thesis by (simp add: generate_svg_def assms(1) r)
qed

lemma generate_svg_overflow:
  assumes "generate_grid self spacing = Inr grid"
    and "\<not> list_all (\<lambda>p. \<bar>fst p\<bar> < float_limit \<and> \<bar>snd p\<bar> < float_limit) grid"
  shows "generate_svg self spacing arrow_scale stroke_width stroke_color = Inl OverflowError"
  by (simp add: generate_svg_def assms(1) arrows_loop_overflow [OF assms(2)])

lemma generate_svg_returned:
  assumes "generate_grid self spacing = Inr grid"
    and "generate_svg self spacing arrow_scale stroke_width stroke_color = Inr doc"
  shows "map (\<lambda>q. (start_x q, start_y q)) (paths doc)
               = map (\<lambda>p. (real_of_int (fst p), real_of_int (snd p)))
                   (filter (\<lambda>p. 0.01 \<le> sample_speed self p) grid)"
proof (cases "list_all (\<lambda>p. \<bar>fst p\<bar> < float_limit \<and> \<bar>snd p\<bar> < float_limit) grid")
  case True
  then show ?thesis
    using generate_svg_paths [OF assms(1) True, of arrow_scale stroke_width stroke_color] assms(2)
    by auto
next
  case False
  then show ?thesis
    using generate_svg_overflow [OF assms(1) False, of arrow_scale stroke_width stroke_color] assms(2)
    by simp
qed

lemma generate_svg_moderate:
  assumes "spacing \<noteq> 0" "moderate self arrow_scale"
  shows "\<exists>grid doc. generate_grid self spacing = Inr grid
           \<and> generate_svg self spacing arrow_scale stroke_width stroke_color = Inr doc
           \<and> svg_width doc = width self \<and> svg_height doc = height self
           \<and> circle_cx doc = center_x self \<and> circle_cy doc = center_y self
           \<and> circle_r doc = eye_radius self
           \<and> map (\<lambda>q. (start_x q, start_y q)) (paths doc)
               = map (\<lambda>p. (real_of_int (fst p), real_of_int (snd p)))
                   (filter (\<lambda>p. 0.01 \<le> sample_speed self p) grid)"
proof -
  obtain grid where g: "generate_grid self spacing = Inr grid"
    using generate_grid_total [OF assms(1)] by blast
  show ?thesis
    using generate_svg_paths [OF g moderate_grid [OF assms(2) g], of arrow_scale stroke_width stroke_color] g
    by blast
qed

lemma generate_svg_overflow_at:
  assumes "0 < spacing" "spacing < width self" "spacing < height self"
    and "\<not> \<bar>spacing\<bar> < float_limit"
  shows "generate_svg self spacing arrow_scale stroke_width stroke_color = Inl OverflowError"
proof -
  define grid where
    "grid = concat (map (\<lambda>x. map (\<lambda>y. (x, y)) (multiples_below spacing (height self)))
                        (multiples_below spacing (width self)))"
  have g: "generate_grid self spacing = Inr grid"
    unfolding grid_def by (rule generate_grid_pos [OF assms(1)])
  have "spacing \<in> set (multiples_below spacing (width self))"
    "spacing \<in> set (multiples_below spacing (height self))"
    using assms(2,3) by (simp_all add: set_multiples_below [OF assms(1)])
  then have m: "(spacing, spacing) \<in> set grid" by (auto simp add: grid_def)
  have "\<not> list_all (\<lambda>p. \<bar>fst p\<bar> < float_limit \<and> \<bar>snd p\<bar> < float_limit) grid"
  proof
    assume "list_all (\<lambda>p. \<bar>fst p\<bar> < float_limit \<and> \<bar>snd p\<bar> < float_limit) grid"
    then have "\<bar>fst (spacing, spacing)\<bar> < float_limit"
      using m unfolding list_all_iff by blast
    then show False using assms(4) by simp
  qed
  then show ?thesis by (rule generate_svg_overflow [OF g])
qed

lemma huge_field_simps:
  "width huge_field = 3 * 2 ^ 1024" "height huge_field = 2 * 2 ^ 1024"
  by (simp_all add: huge_field_def init_def)

lemma huge_svg: "generate_svg huge_field (2 ^ 1024) 1.2 1.5 ''#0066cc'' = Inl OverflowError"
proof (rule generate_svg_overflow_at)
  show "(0::int) < 2 ^ 1024" by simp
  show "2 ^ 1024 < width huge_field" by (simp add: huge_field_simps)
  show "2 ^ 1024 < height huge_field" by (simp add: huge_field_simps)
  show "\<not> \<bar>2 ^ 1024 :: int\<bar> < float_limit" by (simp add: float_limit_def)
qed

subsection \<open>Failures of generate\_svg\<close>

text \<open>
  C3, as stated, fails. With spacing 0 the call of \<open>range\<close> in generate\_grid raises
  ValueError. With spacing \<open>2^1024\<close> on a canvas of \<open>3 * 2^1024\<close> by \<open>2 * 2^1024\<close> the grid
  has two points, and the first coordinate that meets float arithmetic in velocity\_field is
  too large for a float: OverflowError. In both cases generate\_svg returns no document.
\<close>

theorem generate_svg_failures:
  "generate_svg main_field 0 1.2 1.5 ''#0066cc'' = Inl ValueError
   \<and> \<not> (\<exists>doc. generate_svg main_field 0 1.2 1.5 ''#0066cc'' = Inr doc)
   \<and> generate_svg huge_field (2 ^ 1024) 1.2 1.5 ''#0066cc'' = Inl OverflowError
   \<and> \<not> (\<exists>doc. generate_svg huge_field (2 ^ 1024) 1.2 1.5 ''#0066cc'' = Inr doc)"
proof -
  have z: "generate_svg main_field 0 1.2 1.5 ''#0066cc'' = Inl ValueError"
    by (simp add: generate_svg_def generate_grid_zero)
  have "\<not> (\<exists>doc. generate_svg main_field 0 1.2 1.5 ''#0066cc'' = Inr doc)"
    by (simp only: z) simp
  moreover have "\<not> (\<exists>doc. generate_svg huge_field (2 ^ 1024) 1.2 1.5 ''#0066cc'' = Inr doc)"
    by (simp only: huge_svg) simp
  ultimately show ?thesis using z huge_svg by blast
qed

text \<open>
  C3, amended. For every spacing other than 0 and every configuration of moderate magnitudes
  (canvas width and height, centre, max\_wind\_speed, eye\_radius and arrow scale at most
  \<open>2^100\<close> in magnitude), including eye\_radius = 0, a negative eye\_radius, a canvas smaller
  than the spacing and max\_wind\_speed = 0, generate\_svg raises nothing and returns a document
  with the canvas size, the centre and the eye radius of the configuration; its arrow list is
  empty when max\_wind\_speed is 0 and when the canvas is not larger than a positive spacing.
  The model needs only the bound on the canvas, which bounds the grid coordinates; the other
  bounds keep the float arithmetic of the source, which the model takes as exact, inside the
  float range.
\<close>

theorem generate_svg_total:
  assumes "spacing \<noteq> 0" "moderate self arrow_scale"
  shows "\<exists>doc. generate_svg self spacing arrow_scale stroke_width stroke_color = Inr doc
           \<and> svg_width doc = width self \<and> svg_height doc = height self
           \<and> circle_cx doc = center_x self \<and> circle_cy doc = center_y self
           \<and> circle_r doc = eye_radius self
           \<and> (max_wind_speed self = 0 \<longrightarrow> paths doc = [])
           \<and> (0 < spacing \<and> (width self \<le> spacing \<or> height self \<le> spacing) \<longrightarrow> paths doc = [])"
proof -
  obtain grid doc where g: "generate_grid self spacing = Inr grid"
    and d: "generate_svg self spacing arrow_scale stroke_width stroke_color = Inr doc"
    "svg_width doc = width self" "svg_height doc = height self"
    "circle_cx doc = center_x self" "circle_cy doc = center_y self" "circle_r doc = eye_radius self"
    and m: "map (\<lambda>q. (start_x q, start_y q)) (paths doc)
               = map (\<lambda>p. (real_of_int (fst p), real_of_int (snd p)))
                   (filter (\<lambda>p. 0.01 \<le> sample_speed self p) grid)"
    using generate_svg_moderate [OF assms, of stroke_width stroke_color] by blast
  have z: "paths doc = []" if "max_wind_speed self = 0"
    using m by (simp add: zero_wind_sample_speed [OF that])
  have s: "paths doc = []" if "0 < spacing \<and> (width self \<le> spacing \<or> height self \<le> spacing)"
  proof -
    have "grid = []" using small_canvas_grid [of spacing self] that g by simp
    then show ?thesis using m by simp
  qed
  show ?thesis using d z s by blast
qed

theorem generate_svg_total_witness:
  "(25::int) \<noteq> 0 \<and> moderate main_field 1.2
   \<and> (\<exists>doc. generate_svg main_field 25 1.2 1.5 ''#0066cc'' = Inr doc
          \<and> svg_width doc = 800 \<and> svg_height doc = 600 \<and> circle_r doc = 40)"
proof -
  have h: "(25::int) \<noteq> 0" by simp
  show ?thesis
    using h main_field_moderate
      generate_svg_total [OF h main_field_moderate, of "1.5" "''#0066cc''"]
    by (auto simp add: main_field_simps)
qed

subsection \<open>Arrow omission\<close>

text \<open>
  C6. For a spacing other than 0 the grid exists, and in every document generate\_svg
  returns the arrows start exactly at the grid points whose velocity sample has speed at
  least 0.01, in grid order: a grid point with a slower sample contributes nothing. So the
  number of arrows is the number of such grid points and at most the number of grid points.
  A document is returned whenever the magnitudes are moderate. For every sample of the
  field, arrow\_path returns a non-empty path if and only if the speed is at least 0.01.
\<close>

theorem arrow_omission:
  assumes "spacing \<noteq> 0"
  shows "\<exists>grid. generate_grid self spacing = Inr grid
           \<and> (\<forall>doc. generate_svg self spacing arrow_scale stroke_width stroke_color = Inr doc \<longrightarrow>
                map (\<lambda>q. (start_x q, start_y q)) (paths doc)
                  = map (\<lambda>p. (real_of_int (fst p), real_of_int (snd p)))
                      (filter (\<lambda>p. 0.01 \<le> sample_speed self p) grid)
                \<and> length (paths doc) = length (filter (\<lambda>p. 0.01 \<le> sample_speed self p) grid)
                \<and> length (paths doc) \<le> length grid)
           \<and> (moderate self arrow_scale \<longrightarrow>
                (\<exists>doc. generate_svg self spacing arrow_scale stroke_width stroke_color = Inr doc))
           \<and> (\<forall>X Y. \<exists>v a. velocity_field self X Y = Inr v
                  \<and> arrow_path self X Y (fst v) (snd v) arrow_scale 20.0 = Inr a
                  \<and> ((\<exists>q. a = Some q) = (0.01 \<le> speed v)))"
proof -
  obtain grid where g: "generate_grid self spacing = Inr grid"
    using generate_grid_total [OF assms] by blast
  have rel: "map (\<lambda>q. (start_x q, start_y q)) (paths doc)
                  = map (\<lambda>p. (real_of_int (fst p), real_of_int (snd p)))
                      (filter (\<lambda>p. 0.01 \<le> sample_speed self p) grid)
                \<and> length (paths doc) = length (filter (\<lambda>p. 0.01 \<le> sample_speed self p) grid)
                \<and> length (paths doc) \<le> length grid"
    if d: "generate_svg self spacing arrow_scale stroke_width stroke_color = Inr doc" for doc
  proof -
    have m: "map (\<lambda>q. (start_x q, start_y q)) (paths doc)
               = map (\<lambda>p. (real_of_int (fst p), real_of_int (snd p)))
                   (filter (\<lambda>p. 0.01 \<le> sample_speed self p) grid)"
      by (rule generate_svg_returned [OF g d])
    have "length (map (\<lambda>q. (start_x q, start_y q)) (paths doc))
          = length (map (\<lambda>p. (real_of_int (fst p), real_of_int (snd p)))
                   (filter (\<lambda>p. 0.01 \<le> sample_speed self p) grid))"
      by (simp only: m)
    then have l: "length (paths doc) = length (filter (\<lambda>p. 0.01 \<le> sample_speed self p) grid)"
      by simp
    have le: "length (paths doc) \<le> length grid"
      unfolding l by (rule length_filter_le)
    show ?thesis using m l le by blast
  qed
  have ex: "\<exists>doc. generate_svg self spacing arrow_scale stroke_width stroke_color = Inr doc"
    if "moderate self arrow_scale"
    using generate_svg_moderate [OF assms that, of stroke_width stroke_color] by blast
  have pt: "\<exists>v a. velocity_field self X Y = Inr v
                  \<and> arrow_path self X Y (fst v) (snd v) arrow_scale 20.0 = Inr a
                  \<and> ((\<exists>q. a = Some q) = (0.01 \<le> speed v))" for X Y
  proof -
    obtain v a where "velocity_field self X Y = Inr v"
      "arrow_path self X Y (fst v) (snd v) arrow_scale 20 = Inr a"
      "if speed v < 0.01 then a = None else \<exists>q. a = Some q \<and> start_x q = X \<and> start_y q = Y"
      using sample_arrow [of self X Y arrow_scale 20] by blast
    then show ?thesis by (cases "speed v < 0.01") auto
  qed
  show ?thesis using g rel ex pt by blast
qed

theorem arrow_omission_witness:
  "(25::int) \<noteq> 0
   \<and> (\<exists>grid doc. generate_grid main_field 25 = Inr grid
         \<and> generate_svg main_field 25 1.2 1.5 ''#0066cc'' = Inr doc
         \<and> length grid = 713 \<and> length (paths doc) \<le> 713)"
proof -
  have h: "(25::int) \<noteq> 0" by simp
  obtain grid where g: "generate_grid main_field 25 = Inr grid"
    and rel: "\<forall>doc. generate_svg main_field 25 1.2 1.5 ''#0066cc'' = Inr doc \<longrightarrow>
                length (paths doc) \<le> length grid"
    and ex: "moderate main_field 1.2 \<longrightarrow>
                (\<exists>doc. generate_svg main_field 25 1.2 1.5 ''#0066cc'' = Inr doc)"
    using arrow_omission [OF h, of main_field "1.2" "1.5" "''#0066cc''"] by blast
  obtain doc where d: "generate_svg main_field 25 1.2 1.5 ''#0066cc'' = Inr doc"
    using ex main_field_moderate by blast
  have l: "length (paths doc) \<le> length grid" using rel d by blast
  have "length grid = 713" using g by (rule main_grid_length)
  then show ?thesis using h g d l by auto
qed

subsection \<open>A whole document\<close>

text \<open>
  The document of the 3 by 2 canvas at spacing 1: the grid point (1, 1) is the centre and gets
  no arrow, the grid point (2, 1) gets the arrow of the velocity (-1, 0).
\<close>

lemma tiny_field_simps:
  "width tiny_field = 3" "height tiny_field = 2"
  "center_x tiny_field = 1" "center_y tiny_field = 1"
  "max_wind_speed tiny_field = 100" "eye_radius tiny_field = 0"
  by (simp_all add: tiny_field_def init_def)

lemma tiny_grid: "generate_grid tiny_field 1 = Inr [(1, 1), (2, 1)]"
proof -
  have "[0..<2] = [0, Suc 0]" by (simp add: upt_rec)
  then show ?thesis
    by (simp add: generate_grid_def py_range_def tiny_field_simps)
qed

lemma tiny_svg:
  "generate_svg tiny_field 1 1 1.5 ''#0066cc'' =
     Inr \<lparr> svg_width = 3, svg_height = 2, style_stroke = ''#0066cc'', style_stroke_width = 1.5,
           rect_width = 3, rect_height = 2, circle_cx = 1, circle_cy = 1, circle_r = 0,
           paths = [\<lparr> start_x = 2, start_y = 1, tip_x = 1.8, tip_y = 1,
                      left_x = 1.86, left_y = 0.97, right_x = 1.86, right_y = 1.03 \<rparr>] \<rparr>"
  by (simp add: generate_svg_def tiny_grid py_float_def float_limit_def velocity_field_def
      cartesian_velocity_def omega_potential_flow_def omega_solid_body_def py_div_def py_sqrt_def
      arrow_path_def Let_def tiny_field_simps)

end
